theory Spec2Isabelle
  imports Complex_Main "HOL-Library.Char_ord" "HOL-Library.List_Lexorder"
    "HOL-Library.Multiset"
begin

section \<open>Data model: series and dataframes\<close>

text \<open>
  The pipeline works on pandas dataframes. A column (a pandas Series) is modelled by its
  dtype together with its values. An \<open>object\<close> column, as \<open>read_csv\<close> produces it, holds
  Python strings and missing entries (NaN), so its payload is a \<open>string option list\<close> with
  \<open>None\<close> for a missing entry. \<open>int64\<close> and \<open>bool\<close> columns have no missing entries;
  the nullable \<open>Int64\<close> dtype and \<open>float64\<close> do (\<open><NA>\<close> and NaN, both \<open>None\<close>).
  Float values are carried as rationals (so they are finite): the code never computes
  with them, it only moves them, tests them for missing, replaces missing ones by 0 and
  converts them to integers.

  Strings are \<open>char list\<close>; Python compares strings code point by code point, which on
  UTF-8 encoded text is the lexicographic order of the bytes used here.

  Column labels are strings, and a frame's labels are pairwise distinct (\<open>read_csv\<close>
  renames repeated headers); then \<open>df[c]\<close> is one column. The theorems that depend on it
  say so with \<open>distinct (columns df)\<close>.
\<close>

datatype series =
    ObjS "string option list"
  | I64S "int list"
  | NI64S "int option list"
  | F64S "rat option list"
  | BoolS "bool list"

text \<open>A dataframe is the ordered list of its labelled columns.\<close>

type_synonym dataframe = "(string \<times> series) list"

datatype error =
    KeyError string | ValueError string | TypeError string
  | AttributeError string | OverflowError string

text \<open>
  A scalar that is not a string. Python's \<open>str\<close> of a number is library code; where the
  pipeline converts a column with \<open>.astype(str)\<close> or names an indicator column after a
  category, the model takes that function as the parameter \<open>py_str\<close>. The pipeline only
  reaches it on non-object columns, which the feature step never selects.
\<close>

datatype scalar = IntV int | FloatV rat | BoolV bool

definition columns :: "dataframe \<Rightarrow> string list" where
  "columns df = map fst df"

text \<open>\<open>df[c]\<close>: the column labelled \<open>c\<close>; a missing label raises KeyError.\<close>

definition getcol :: "dataframe \<Rightarrow> string \<Rightarrow> error + series" where
  "getcol df c = (case map_of df c of None \<Rightarrow> Inl (KeyError c) | Some s \<Rightarrow> Inr s)"

text \<open>\<open>df[c] = s\<close>: replaces the column labelled \<open>c\<close> in place, or appends a new
  column when the label is absent.\<close>

fun setcol :: "dataframe \<Rightarrow> string \<Rightarrow> series \<Rightarrow> dataframe" where
  "setcol [] c s = [(c, s)]"
| "setcol ((k, v) # df) c s = (if k = c then (k, s) # df else (k, v) # setcol df c s)"

section \<open>Binary encoding of one series\<close>

text \<open>\<open>s.dropna()\<close> on an object series.\<close>

definition dropna :: "'a option list \<Rightarrow> 'a list" where
  "dropna s = concat (map (\<lambda>x. case x of None \<Rightarrow> [] | Some v \<Rightarrow> [v]) s)"

text \<open>\<open>.unique()\<close>: the distinct values in order of first appearance.\<close>

definition unique :: "'a list \<Rightarrow> 'a list" where
  "unique xs = rev (remdups (rev xs))"

text \<open>\<open>s.map(d)\<close> for a dict \<open>d\<close> followed by \<open>.astype("Int64")\<close>: a missing entry
  stays missing, and so does a value that is not a key of the dict.\<close>

definition map_dict :: "(string \<rightharpoonup> int) \<Rightarrow> string option list \<Rightarrow> int option list" where
  "map_dict d s = map (\<lambda>x. case x of None \<Rightarrow> None | Some v \<Rightarrow> d v) s"

text \<open>
  \<open>_map_binary_series\<close> on a series of strings and missing entries. \<open>vals\<close> are the
  distinct non-missing values (on strings \<open>.astype(str)\<close> changes nothing); the dict
  literal \<open>{sorted_vals[1]: 1, sorted_vals[0]: 0}\<close> is built left to right.
\<close>

definition map_binary_series :: "string option list \<Rightarrow> series" where
  "map_binary_series s =
     (let vals = unique (dropna s);
          valset = set vals
      in if valset = {''Yes'', ''No''} then
           NI64S (map_dict [''Yes'' \<mapsto> 1, ''No'' \<mapsto> 0] s)
         else if valset = {''Male'', ''Female''} then
           NI64S (map_dict [''Male'' \<mapsto> 1, ''Female'' \<mapsto> 0] s)
         else if length vals = 2 then
           (let sorted_vals = sort vals;
                mapping = [sorted_vals ! 1 \<mapsto> 1, sorted_vals ! 0 \<mapsto> 0]
            in NI64S (map_dict mapping s))
         else ObjS s)"

section \<open>Feature engineering\<close>

subsection \<open>Dtype tests and column classification\<close>

fun is_object :: "series \<Rightarrow> bool" where
  "is_object (ObjS _) = True"
| "is_object _ = False"

fun is_bool :: "series \<Rightarrow> bool" where
  "is_bool (BoolS _) = True"
| "is_bool _ = False"

text \<open>\<open>pd.api.types.is_integer_dtype\<close>: \<open>int64\<close> and the nullable \<open>Int64\<close>;
  \<open>bool\<close> is not an integer dtype for pandas.\<close>

fun is_integer_dtype :: "series \<Rightarrow> bool" where
  "is_integer_dtype (I64S _) = True"
| "is_integer_dtype (NI64S _) = True"
| "is_integer_dtype _ = False"


text \<open>\<open>s.nunique()\<close>: the number of distinct non-missing values.\<close>

fun nunique :: "series \<Rightarrow> nat" where
  "nunique (ObjS s) = length (unique (dropna s))"
| "nunique (I64S xs) = length (unique xs)"
| "nunique (NI64S xs) = length (unique (dropna xs))"
| "nunique (F64S xs) = length (unique (dropna xs))"
| "nunique (BoolS bs) = length (unique bs)"

text \<open>Steps 1 and 2 of \<open>build_features\<close>. With distinct labels, \<open>df[c]\<close> for a label
  \<open>c\<close> taken from the frame is the column that carries the label.\<close>

definition obj_cols :: "string \<Rightarrow> dataframe \<Rightarrow> string list" where
  "obj_cols target_col df = map fst (filter (\<lambda>(c, s). is_object s \<and> c \<noteq> target_col) df)"

definition binary_cols :: "string \<Rightarrow> dataframe \<Rightarrow> string list" where
  "binary_cols target_col df =
     map fst (filter (\<lambda>(c, s). is_object s \<and> c \<noteq> target_col \<and> nunique s = 2) df)"

definition multi_cat_cols :: "string \<Rightarrow> dataframe \<Rightarrow> string list" where
  "multi_cat_cols target_col df =
     map fst (filter (\<lambda>(c, s). is_object s \<and> c \<noteq> target_col \<and> nunique s > 2) df)"

subsection \<open>Step 3: binary encoding\<close>

text \<open>\<open>s.astype(str)\<close>: every entry becomes a string, a missing entry of an object or
  float column the string \<open>nan\<close>, one of a nullable integer column \<open><NA>\<close>.\<close>

fun astype_str :: "(scalar \<Rightarrow> string) \<Rightarrow> series \<Rightarrow> string option list" where
  "astype_str py_str (ObjS s) = map (\<lambda>x. case x of None \<Rightarrow> Some ''nan'' | Some v \<Rightarrow> Some v) s"
| "astype_str py_str (I64S xs) = map (\<lambda>n. Some (py_str (IntV n))) xs"
| "astype_str py_str (NI64S xs) =
     map (\<lambda>x. case x of None \<Rightarrow> Some ''<NA>'' | Some n \<Rightarrow> Some (py_str (IntV n))) xs"
| "astype_str py_str (F64S xs) =
     map (\<lambda>x. case x of None \<Rightarrow> Some ''nan'' | Some q \<Rightarrow> Some (py_str (FloatV q))) xs"
| "astype_str py_str (BoolS bs) = map (\<lambda>b. Some (py_str (BoolV b))) bs"

text \<open>The loop \<open>for col in binary_cols: df[col] = _map_binary_series(df[col].astype(str))\<close>.\<close>

fun encode_binary_cols :: "(scalar \<Rightarrow> string) \<Rightarrow> string list \<Rightarrow> dataframe \<Rightarrow> error + dataframe" where
  "encode_binary_cols py_str [] df = Inr df"
| "encode_binary_cols py_str (col # cols) df =
     (case getcol df col of
        Inl e \<Rightarrow> Inl e
      | Inr s \<Rightarrow> encode_binary_cols py_str cols
                 (setcol df col (map_binary_series (astype_str py_str s))))"

subsection \<open>Step 4: boolean columns to Int64\<close>

fun bool_to_Int64 :: "series \<Rightarrow> series" where
  "bool_to_Int64 (BoolS bs) = NI64S (map (\<lambda>b. Some (if b then 1 else 0)) bs)"
| "bool_to_Int64 s = s"

definition convert_bool_cols :: "dataframe \<Rightarrow> dataframe" where
  "convert_bool_cols df = map (\<lambda>(c, s). (c, bool_to_Int64 s)) df"

subsection \<open>Step 5: one-hot encoding\<close>

text \<open>
  \<open>pd.get_dummies(df, columns=cols, drop_first=True)\<close>. For each listed column the
  levels are its distinct non-missing values in sorted order; one boolean indicator
  column per level but the first is created, labelled \<open>column_level\<close>; a row with a
  missing entry has every indicator false. The listed columns are removed and the
  indicator columns are appended after the remaining ones, in the order of \<open>cols\<close>.
\<close>

fun get_dummies_1d :: "(scalar \<Rightarrow> string) \<Rightarrow> string \<Rightarrow> series \<Rightarrow> dataframe" where
  "get_dummies_1d py_str prefix (ObjS s) =
     map (\<lambda>l. (prefix @ ''_'' @ l, BoolS (map (\<lambda>x. x = Some l) s)))
         (tl (sort (unique (dropna s))))"
| "get_dummies_1d py_str prefix (I64S xs) =
     map (\<lambda>l. (prefix @ ''_'' @ py_str (IntV l), BoolS (map (\<lambda>x. x = l) xs)))
         (tl (sort (unique xs)))"
| "get_dummies_1d py_str prefix (NI64S xs) =
     map (\<lambda>l. (prefix @ ''_'' @ py_str (IntV l), BoolS (map (\<lambda>x. x = Some l) xs)))
         (tl (sort (unique (dropna xs))))"
| "get_dummies_1d py_str prefix (F64S xs) =
     map (\<lambda>l. (prefix @ ''_'' @ py_str (FloatV l), BoolS (map (\<lambda>x. x = Some l) xs)))
         (tl (sort (unique (dropna xs))))"
| "get_dummies_1d py_str prefix (BoolS bs) =
     map (\<lambda>l. (prefix @ ''_'' @ py_str (BoolV l), BoolS (map (\<lambda>x. x = l) bs)))
         (tl (sort (unique bs)))"

fun dummies_for :: "(scalar \<Rightarrow> string) \<Rightarrow> dataframe \<Rightarrow> string list \<Rightarrow> error + dataframe" where
  "dummies_for py_str df [] = Inr []"
| "dummies_for py_str df (c # cs) =
     (case getcol df c of
        Inl e \<Rightarrow> Inl e
      | Inr s \<Rightarrow> (case dummies_for py_str df cs of
                   Inl e \<Rightarrow> Inl e
                 | Inr ds \<Rightarrow> Inr (get_dummies_1d py_str c s @ ds)))"

definition get_dummies :: "(scalar \<Rightarrow> string) \<Rightarrow> dataframe \<Rightarrow> string list \<Rightarrow> error + dataframe" where
  "get_dummies py_str df cols =
     (case dummies_for py_str df cols of
        Inl e \<Rightarrow> Inl e
      | Inr ds \<Rightarrow> Inr (filter (\<lambda>(c, s). c \<notin> set cols) df @ ds))"

subsection \<open>Step 6: dtype cleaning\<close>

text \<open>\<open>s.fillna(0).astype("Int64")\<close> on an integer column.\<close>

fun fillna0_Int64 :: "series \<Rightarrow> series" where
  "fillna0_Int64 (I64S xs) = NI64S (map Some xs)"
| "fillna0_Int64 (NI64S xs) = NI64S (map (\<lambda>x. case x of None \<Rightarrow> Some 0 | Some v \<Rightarrow> Some v) xs)"
| "fillna0_Int64 s = s"

fun dtype_cleaning :: "string list \<Rightarrow> dataframe \<Rightarrow> error + dataframe" where
  "dtype_cleaning [] df = Inr df"
| "dtype_cleaning (c # cs) df =
     (case getcol df c of
        Inl e \<Rightarrow> Inl e
      | Inr s \<Rightarrow> dtype_cleaning cs
                 (if is_integer_dtype s then setcol df c (fillna0_Int64 s) else df))"

subsection \<open>The whole of \<open>build_features\<close>, on a heap of frames\<close>

text \<open>
  Dataframes are mutable objects, and \<open>build_features\<close> assigns columns in place. The
  heap is the list of the frames allocated so far, an address is an index into it.
  \<open>df.copy()\<close> and \<open>pd.get_dummies\<close> allocate a new frame; the column assignments of
  steps 3, 4 and 6 write to the frame the local variable \<open>df\<close> is bound to at that point.
  The caller passes the address \<open>a\<close> of its frame and gets back the address of the result.
\<close>

type_synonym heap = "dataframe list"

definition alloc :: "heap \<Rightarrow> dataframe \<Rightarrow> heap \<times> nat" where
  "alloc h df = (h @ [df], length h)"

definition build_features ::
    "(scalar \<Rightarrow> string) \<Rightarrow> heap \<Rightarrow> nat \<Rightarrow> string \<Rightarrow> error + (heap \<times> nat)" where
  "build_features py_str h a target_col =
     (let (h1, df) = alloc h (h ! a);
          binary = binary_cols target_col (h1 ! df);
          multi = multi_cat_cols target_col (h1 ! df)
      in case encode_binary_cols py_str binary (h1 ! df) of
           Inl e \<Rightarrow> Inl e
         | Inr d3 \<Rightarrow>
            (let h3 = h1[df := d3];
                 h4 = h3[df := convert_bool_cols (h3 ! df)]
             in case (if multi \<noteq> []
                      then (case get_dummies py_str (h4 ! df) multi of
                              Inl e \<Rightarrow> Inl e
                            | Inr d5 \<Rightarrow> Inr (alloc h4 d5))
                      else Inr (h4, df)) of
                  Inl e \<Rightarrow> Inl e
                | Inr (h5, df5) \<Rightarrow>
                   (case dtype_cleaning binary (h5 ! df5) of
                      Inl e \<Rightarrow> Inl e
                    | Inr d6 \<Rightarrow> Inr (h5[df5 := d6], df5))))"

text \<open>The frame \<open>build_features\<close> returns when called on a frame \<open>df\<close>.\<close>

definition build_features_df ::
    "(scalar \<Rightarrow> string) \<Rightarrow> string \<Rightarrow> dataframe \<Rightarrow> error + dataframe" where
  "build_features_df py_str target_col df =
     (case build_features py_str [df] 0 target_col of
        Inl e \<Rightarrow> Inl e
      | Inr (h, r) \<Rightarrow> Inr (h ! r))"

text \<open>
  Steps 1 to 3 alone (classification and the binary-encoding loop), and steps 4 and 6
  alone (the two dtype conversions), as functions of the frame.
\<close>

definition binary_encoding_step ::
    "(scalar \<Rightarrow> string) \<Rightarrow> string \<Rightarrow> dataframe \<Rightarrow> error + dataframe" where
  "binary_encoding_step py_str target_col df =
     encode_binary_cols py_str (binary_cols target_col df) df"

definition dtype_normalize :: "string list \<Rightarrow> dataframe \<Rightarrow> error + dataframe" where
  "dtype_normalize binary df = dtype_cleaning binary (convert_bool_cols df)"

text \<open>Notation for the proofs: what steps 3 and 6 do to one column, and a function
  applied to the columns with the given labels.\<close>

definition enc :: "(scalar \<Rightarrow> string) \<Rightarrow> series \<Rightarrow> series" where
  "enc py_str x = map_binary_series (astype_str py_str x)"

definition clean :: "series \<Rightarrow> series" where
  "clean x = (if is_integer_dtype x then fillna0_Int64 x else x)"

definition on_cols :: "string list \<Rightarrow> (series \<Rightarrow> series) \<Rightarrow> dataframe \<Rightarrow> dataframe" where
  "on_cols cs f df = map (\<lambda>(k, v). if k \<in> set cs then (k, f v) else (k, v)) df"

section \<open>Preprocessing\<close>








text \<open>
  Stripping can make two labels equal. Then \<open>df[c]\<close> for such a label is a DataFrame
  and not a Series, and the steps below that read one column raise; the model follows
  them there.
\<close>





















section \<open>Persisting the feature metadata\<close>

text \<open>
  The part of \<open>main\<close> that saves the feature metadata (run\_pipeline.py, lines 109 to
  126) writes to two sinks: files under the artifacts directory and artifacts of the
  mlflow run. The state is the pair of the two stores. A local path is the pair of
  directory and file name.
\<close>

record preprocessing_artifacts =
  feature_column :: "string list"
  target :: string

datatype payload =
    JsonList "string list"
  | Text string
  | Joblib preprocessing_artifacts

record sinks =
  local_files :: "string \<times> string \<rightharpoonup> payload"
  mlflow_artifacts :: "string \<rightharpoonup> payload"

text \<open>\<open>"\\n".join(xs)\<close>.\<close>

fun join_lines :: "string list \<Rightarrow> string" where
  "join_lines [] = []"
| "join_lines [x] = x"
| "join_lines (x # y # ys) = x @ [CHR 0x0A] @ join_lines (y # ys)"

text \<open>\<open>mlflow.log_artifact(path)\<close> uploads the file at the path under its file name.\<close>

definition log_artifact :: "sinks \<Rightarrow> string \<times> string \<Rightarrow> error + sinks" where
  "log_artifact st path =
     (case local_files st path of
        None \<Rightarrow> Inl (KeyError (snd path))
      | Some x \<Rightarrow> Inr (st\<lparr>mlflow_artifacts := (mlflow_artifacts st)(snd path \<mapsto> x)\<rparr>))"

definition save_feature_metadata ::
    "sinks \<Rightarrow> string \<Rightarrow> dataframe \<Rightarrow> string \<Rightarrow> error + sinks" where
  "save_feature_metadata st artifacts_dir df_enc target_col =
     (if target_col \<notin> set (columns df_enc) then Inl (KeyError target_col)
      else
        (let feature_cols = filter (\<lambda>c. c \<noteq> target_col) (columns df_enc);
             st1 = st\<lparr>local_files := (local_files st)
                      ((artifacts_dir, ''feature_columns.json'') \<mapsto> JsonList feature_cols)\<rparr>;
             st2 = st1\<lparr>mlflow_artifacts := (mlflow_artifacts st1)
                      (''feature_columns.txt'' \<mapsto> Text (join_lines feature_cols))\<rparr>;
             preprocessing_artifacts =
                \<lparr>feature_column = feature_cols, target = target_col\<rparr>;
             st3 = st2\<lparr>local_files := (local_files st2)
                      ((artifacts_dir, ''preprocessing.pkl'') \<mapsto> Joblib preprocessing_artifacts)\<rparr>
         in log_artifact st3 (artifacts_dir, ''preprocessing.pkl'')))"

section \<open>Auxiliary lemmas\<close>

subsection \<open>Distinct values and the binary mapping\<close>

lemma set_unique [simp]: "set (unique xs) = set xs"
  by (simp add: unique_def)

lemma distinct_unique [simp]: "distinct (unique xs)"
  by (simp add: unique_def)

lemma set_dropna: "set (dropna s) = {v. Some v \<in> set s}"
  by (induction s) (auto simp: dropna_def split: option.splits)

lemma length_map_dict [simp]: "length (map_dict d s) = length s"
  by (simp add: map_dict_def)

lemma nth_map_dict: "i < length s \<Longrightarrow> map_dict d s ! i = (case s ! i of None \<Rightarrow> None | Some v \<Rightarrow> d v)"
  by (simp add: map_dict_def)

lemma length_unique_two:
  assumes "set xs = {a, b}" "a \<noteq> b"
  shows "length (unique xs) = 2"
proof -
  have "card (set (unique xs)) = length (unique xs)"
    by (rule distinct_card) (rule distinct_unique)
  then have "length (unique xs) = card {a, b}" using assms by simp
  then show ?thesis using assms by simp
qed

lemma sort_unique_pair:
  fixes a b :: "'a::linorder"
  assumes "set xs = {a, b}" "a < b"
  shows "sort (unique xs) = [a, b]"
proof -
  have "sorted (sort (unique xs))" "distinct (sort (unique xs))" "set (sort (unique xs)) = {a, b}"
    using assms by simp_all
  moreover have "sorted [a, b]" "distinct [a, b]" "set [a, b] = {a, b}"
    using assms by auto
  ultimately show ?thesis
    by (metis sorted_distinct_set_unique)
qed

lemma map_binary_series_cases:
  obtains d where "map_binary_series s = NI64S (map_dict d s)"
  | "map_binary_series s = ObjS s" "length (unique (dropna s)) \<noteq> 2"
proof (cases "set (unique (dropna s)) = {''Yes'', ''No''}")
  case True
  then have "map_binary_series s = NI64S (map_dict [''Yes'' \<mapsto> 1, ''No'' \<mapsto> 0] s)"
    by (simp only: map_binary_series_def Let_def if_True simp_thms)
  then show ?thesis using that(1) by blast
next
  case ny: False
  show ?thesis
  proof (cases "set (unique (dropna s)) = {''Male'', ''Female''}")
    case True
    then have "map_binary_series s = NI64S (map_dict [''Male'' \<mapsto> 1, ''Female'' \<mapsto> 0] s)"
      using ny by (simp only: map_binary_series_def Let_def if_True if_False simp_thms)
    then show ?thesis using that(1) by blast
  next
    case nm: False
    show ?thesis
    proof (cases "length (unique (dropna s)) = 2")
      case True
      then have "map_binary_series s =
          NI64S (map_dict [sort (unique (dropna s)) ! 1 \<mapsto> 1, sort (unique (dropna s)) ! 0 \<mapsto> 0] s)"
        using ny nm by (simp only: map_binary_series_def Let_def if_True if_False simp_thms)
      then show ?thesis using that(1) by blast
    next
      case False
      then have "map_binary_series s = ObjS s"
        using ny nm by (simp only: map_binary_series_def Let_def if_True if_False simp_thms)
      then show ?thesis using that(2) False by blast
    qed
  qed
qed

lemma map_binary_series_generic:
  assumes vs: "set (dropna s) = {a, b}" and ab: "a < b"
    and ny: "{a, b} \<noteq> {''Yes'', ''No''}" and nm: "{a, b} \<noteq> {''Male'', ''Female''}"
  shows "map_binary_series s =
           NI64S (map (\<lambda>x. if x = Some b then Some 1 else if x = Some a then Some 0 else None) s)"
proof -
  have len: "length (unique (dropna s)) = 2"
    using length_unique_two [OF vs] ab by simp
  have srt: "sort (unique (dropna s)) = [a, b]"
    using sort_unique_pair [OF vs ab] .
  have mem: "\<And>v. Some v \<in> set s \<Longrightarrow> v = a \<or> v = b"
    using vs by (auto simp: set_dropna)
  have "map_dict [b \<mapsto> 1, a \<mapsto> 0] s =
          map (\<lambda>x. if x = Some b then Some 1 else if x = Some a then Some 0 else None) s"
    unfolding map_dict_def using mem ab by (auto split: option.splits)
  then show ?thesis
    using vs ny nm len srt by (simp add: map_binary_series_def Let_def)
qed

lemma map_binary_series_yes_no:
  assumes "set s = {Some ''Yes'', Some ''No''}"
  shows "map_binary_series s = NI64S (map (\<lambda>x. if x = Some ''Yes'' then Some 1 else Some 0) s)"
proof -
  have vs: "set (dropna s) = {''Yes'', ''No''}"
    using assms by (auto simp: set_dropna)
  have "map_dict [''Yes'' \<mapsto> 1, ''No'' \<mapsto> 0] s = map (\<lambda>x. if x = Some ''Yes'' then Some 1 else Some 0) s"
    unfolding map_dict_def using assms by (auto split: option.splits)
  then show ?thesis
    using vs by (simp add: map_binary_series_def Let_def)
qed

lemma map_binary_series_missing:
  assumes "map_binary_series s = NI64S r"
  shows "length r = length s \<and> (\<forall>i<length s. s ! i = None \<longrightarrow> r ! i = None)"
proof (cases s rule: map_binary_series_cases)
  case (1 d)
  then have "r = map_dict d s" using assms by simp
  then show ?thesis by (simp add: nth_map_dict)
next
  case 2
  then show ?thesis using assms by simp
qed

lemma map_binary_series_obj:
  "is_object (map_binary_series s) \<Longrightarrow> nunique (map_binary_series s) \<noteq> 2"
  by (cases s rule: map_binary_series_cases) simp_all

lemma map_binary_series_not_bool [simp]:
  "bool_to_Int64 (map_binary_series s) = map_binary_series s"
  by (cases s rule: map_binary_series_cases) simp_all

subsection \<open>Frames: lookup, assignment, column-wise maps\<close>

lemma map_of_setcol: "map_of (setcol df c s) = (map_of df)(c \<mapsto> s)"
  by (induction df c s rule: setcol.induct) auto

lemma setcol_append:
  "c \<in> set (columns K) \<Longrightarrow> setcol (K @ D) c s = setcol K c s @ D"
  by (induction K c s rule: setcol.induct) (auto simp: columns_def)

lemma setcol_map:
  "distinct (columns df) \<Longrightarrow> map_of df c = Some x \<Longrightarrow>
   setcol df c (f x) = map (\<lambda>(k, v). if k = c then (k, f v) else (k, v)) df"
proof (induction df)
  case Nil
  then show ?case by simp
next
  case (Cons p df)
  obtain k v where p: "p = (k, v)" by (cases p)
  show ?case
  proof (cases "k = c")
    case True
    then have "c \<notin> fst ` set df" using Cons.prems p by (auto simp: columns_def)
    then have "map (\<lambda>(k, v). if k = c then (k, f v) else (k, v)) df = df"
      by (induction df) (auto)
    then show ?thesis using True p Cons.prems by simp
  next
    case False
    then show ?thesis using p Cons by (simp add: columns_def)
  qed
qed

lemma setcol_same: "map_of df c = Some x \<Longrightarrow> setcol df c x = df"
  by (induction df c x rule: setcol.induct) (auto split: if_splits)

lemma setcol_set: "set (setcol df c s) \<subseteq> insert (c, s) (set df)"
  by (induction df c s rule: setcol.induct) auto

lemma map_of_append_left:
  "c \<in> set (columns K) \<Longrightarrow> map_of (K @ D) c = map_of K c"
  by (auto simp: columns_def map_add_def split: option.splits dest: weak_map_of_SomeI)

lemma map_of_in_columns: "c \<in> set (columns df) \<Longrightarrow> \<exists>x. map_of df c = Some x"
  by (induction df) (auto simp: columns_def)

lemma map_of_filter_labels:
  "Q c \<Longrightarrow> map_of (filter (\<lambda>(k, v). Q k) df) c = map_of df c"
  by (induction df) auto

lemma columns_on_cols [simp]: "columns (on_cols cs f df) = columns df"
  by (induction df) (auto simp: on_cols_def columns_def)

lemma on_cols_Nil [simp]: "on_cols [] f df = df"
  by (induction df) (auto simp: on_cols_def)

lemma on_cols_Cons:
  "c \<notin> set cs \<Longrightarrow> on_cols cs f (on_cols [c] f df) = on_cols (c # cs) f df"
  by (induction df) (auto simp: on_cols_def)

lemma setcol_on_cols:
  assumes "distinct (columns df)" "map_of df c = Some x"
  shows "setcol df c (f x) = on_cols [c] f df"
  using setcol_map [OF assms, of f] by (simp add: on_cols_def)

lemma map_of_on_cols:
  "map_of (on_cols cs f df) c = (if c \<in> set cs then map_option f (map_of df c) else map_of df c)"
  by (induction df) (auto simp: on_cols_def)

lemma map_of_convert_bool_cols:
  "map_of (convert_bool_cols df) c = map_option bool_to_Int64 (map_of df c)"
  by (induction df) (auto simp: convert_bool_cols_def)

lemma columns_convert_bool_cols [simp]: "columns (convert_bool_cols df) = columns df"
  by (induction df) (auto simp: convert_bool_cols_def columns_def)

lemma columns_filter_labels:
  "columns (filter (\<lambda>(k, v). Q k) df) = filter Q (columns df)"
  by (induction df) (auto simp: columns_def)

lemma clean_idem [simp]: "clean (clean x) = clean x"
  by (cases x) (auto simp: clean_def split: option.splits)

lemma bool_to_Int64_idem [simp]: "bool_to_Int64 (bool_to_Int64 x) = bool_to_Int64 x"
  by (cases x) simp_all

lemma convert_bool_cols_idem: "convert_bool_cols (convert_bool_cols df) = convert_bool_cols df"
  by (induction df) (auto simp: convert_bool_cols_def)

lemma convert_bool_cols_no_bool: "\<forall>(k, v)\<in>set (convert_bool_cols df). \<not> is_bool v"
proof -
  have "\<not> is_bool (bool_to_Int64 v)" for v by (cases v) simp_all
  then show ?thesis by (auto simp: convert_bool_cols_def)
qed

lemma convert_bool_cols_fixed:
  "(\<forall>(k, v)\<in>set df. \<not> is_bool v) \<Longrightarrow> convert_bool_cols df = df"
proof (induction df)
  case Nil
  then show ?case by (simp add: convert_bool_cols_def)
next
  case (Cons a df)
  obtain k v where a: "a = (k, v)" by (cases a)
  then have "\<not> is_bool v" using Cons.prems by simp
  then have "bool_to_Int64 v = v" by (cases v) simp_all
  then show ?case using Cons a by (simp add: convert_bool_cols_def)
qed

subsection \<open>The steps of \<open>build_features\<close> on frames with distinct labels\<close>

lemma binary_cols_mem:
  "c \<in> set (binary_cols t df) \<longleftrightarrow> (\<exists>v. (c, v) \<in> set df \<and> is_object v \<and> c \<noteq> t \<and> nunique v = 2)"
  by (force simp: binary_cols_def)

lemma multi_cat_cols_mem:
  "c \<in> set (multi_cat_cols t df) \<longleftrightarrow> (\<exists>v. (c, v) \<in> set df \<and> is_object v \<and> c \<noteq> t \<and> nunique v > 2)"
  by (force simp: multi_cat_cols_def)

lemma binary_cols_distinct: "distinct (columns df) \<Longrightarrow> distinct (binary_cols t df)"
  by (simp add: binary_cols_def columns_def distinct_map_filter)

lemma multi_cat_cols_distinct: "distinct (columns df) \<Longrightarrow> distinct (multi_cat_cols t df)"
  by (simp add: multi_cat_cols_def columns_def distinct_map_filter)

lemma binary_cols_subset: "set (binary_cols t df) \<subseteq> set (columns df)"
  by (auto simp: binary_cols_def columns_def)

lemma multi_cat_cols_subset: "set (multi_cat_cols t df) \<subseteq> set (columns df)"
  by (auto simp: multi_cat_cols_def columns_def)

lemma binary_multi_disjoint:
  assumes "distinct (columns df)"
  shows "set (binary_cols t df) \<inter> set (multi_cat_cols t df) = {}"
proof -
  have "False" if b: "c \<in> set (binary_cols t df)" and m: "c \<in> set (multi_cat_cols t df)" for c
  proof -
    from b obtain v where v: "(c, v) \<in> set df" "nunique v = 2" by (auto simp: binary_cols_mem)
    from m obtain w where w: "(c, w) \<in> set df" "nunique w > 2" by (auto simp: multi_cat_cols_mem)
    have "v = w" using assms v(1) w(1) unfolding columns_def by (rule eq_key_imp_eq_value)
    then show False using v w by simp
  qed
  then show ?thesis by blast
qed

lemma encode_binary_cols_shape:
  "distinct (columns df) \<Longrightarrow> set cs \<subseteq> set (columns df) \<Longrightarrow> distinct cs \<Longrightarrow>
   encode_binary_cols p cs df = Inr (on_cols cs (enc p) df)"
proof (induction cs arbitrary: df)
  case Nil
  then show ?case by simp
next
  case (Cons c cs)
  from Cons.prems obtain x where x: "map_of df c = Some x"
    using map_of_in_columns by force
  let ?df1 = "on_cols [c] (enc p) df"
  have s: "setcol df c (map_binary_series (astype_str p x)) = ?df1"
    using setcol_on_cols [OF Cons.prems(1) x, of "enc p"] by (simp add: enc_def)
  have "encode_binary_cols p cs ?df1 = Inr (on_cols cs (enc p) ?df1)"
    using Cons.prems by (intro Cons.IH) simp_all
  then show ?case
    using x s Cons.prems by (simp add: getcol_def on_cols_Cons)
qed

lemma binary_cols_after_encoding:
  "binary_cols t (on_cols (binary_cols t df) (enc p) df) = []"
proof -
  have "\<not> (is_object v \<and> k \<noteq> t \<and> nunique v = 2)"
    if "(k, v) \<in> set (on_cols (binary_cols t df) (enc p) df)" for k v
  proof -
    from that obtain w where w: "(k, w) \<in> set df"
      and v: "v = (if k \<in> set (binary_cols t df) then enc p w else w)"
      by (auto simp: on_cols_def split: if_splits)
    show ?thesis
    proof (cases "k \<in> set (binary_cols t df)")
      case True
      then show ?thesis using v map_binary_series_obj by (auto simp: enc_def)
    next
      case False
      then show ?thesis using v w by (auto simp: binary_cols_mem)
    qed
  qed
  then show ?thesis by (auto simp: binary_cols_def filter_empty_conv)
qed

lemma dtype_cleaning_shape:
  "distinct (columns K) \<Longrightarrow> set cs \<subseteq> set (columns K) \<Longrightarrow> distinct cs \<Longrightarrow>
   dtype_cleaning cs (K @ D) = Inr (on_cols cs clean K @ D)"
proof (induction cs arbitrary: K)
  case Nil
  then show ?case by simp
next
  case (Cons c cs)
  from Cons.prems obtain x where x: "map_of K c = Some x"
    using map_of_in_columns by force
  have cK: "c \<in> set (columns K)" using Cons.prems by simp
  let ?K1 = "on_cols [c] clean K"
  have g: "getcol (K @ D) c = Inr x"
    using map_of_append_left [OF cK, of D] x by (simp add: getcol_def)
  have "(if is_integer_dtype x then setcol K c (fillna0_Int64 x) else K) = setcol K c (clean x)"
    using setcol_same [OF x] by (simp add: clean_def)
  also have "\<dots> = ?K1"
    using setcol_on_cols [OF Cons.prems(1) x, of clean] .
  finally have s: "(if is_integer_dtype x then setcol (K @ D) c (fillna0_Int64 x) else K @ D) = ?K1 @ D"
    using setcol_append [OF cK, of D] by (simp split: if_splits)
  have "dtype_cleaning cs (?K1 @ D) = Inr (on_cols cs clean ?K1 @ D)"
    using Cons.prems by (intro Cons.IH) simp_all
  then show ?case
    using g s Cons.prems by (simp add: on_cols_Cons)
qed

lemma dtype_cleaning_lookup:
  "dtype_cleaning cs df = Inr df' \<Longrightarrow>
   (\<forall>c\<in>set cs. map_of df c \<noteq> None) \<and>
   (\<forall>c. map_of df' c = (if c \<in> set cs then map_option clean (map_of df c) else map_of df c))"
proof (induction cs arbitrary: df)
  case Nil
  then show ?case by simp
next
  case (Cons c0 cs)
  from Cons.prems obtain x where x: "map_of df c0 = Some x"
    by (auto simp: getcol_def split: option.splits)
  let ?df1 = "if is_integer_dtype x then setcol df c0 (fillna0_Int64 x) else df"
  have m1: "map_of ?df1 = (map_of df)(c0 \<mapsto> clean x)"
    using x by (auto simp: map_of_setcol clean_def)
  have run: "dtype_cleaning cs ?df1 = Inr df'"
    using Cons.prems x by (simp add: getcol_def)
  from Cons.IH [OF run] have ih1: "\<forall>c\<in>set cs. map_of ?df1 c \<noteq> None"
    and ih2: "\<And>c. map_of df' c = (if c \<in> set cs then map_option clean (map_of ?df1 c) else map_of ?df1 c)"
    by blast+
  have a: "\<forall>c\<in>set (c0 # cs). map_of df c \<noteq> None"
    using ih1 x unfolding m1 by (auto split: if_splits)
  have b: "map_of df' c = (if c \<in> set (c0 # cs) then map_option clean (map_of df c) else map_of df c)" for c
    using ih2 [of c] x unfolding m1 by auto
  from a b show ?case by blast
qed

lemma dtype_cleaning_fixed:
  "(\<forall>c\<in>set cs. \<exists>x. map_of df c = Some x \<and> clean x = x) \<Longrightarrow> dtype_cleaning cs df = Inr df"
proof (induction cs)
  case Nil
  then show ?case by simp
next
  case (Cons c cs)
  then obtain x where x: "map_of df c = Some x" "clean x = x" by auto
  then have "(if is_integer_dtype x then setcol df c (fillna0_Int64 x) else df) = df"
    using setcol_same [of df c x] by (auto simp: clean_def)
  then show ?case using Cons x by (simp add: getcol_def)
qed

lemma dtype_cleaning_idem:
  assumes "dtype_cleaning cs df = Inr df'"
  shows "dtype_cleaning cs df' = Inr df'"
proof (rule dtype_cleaning_fixed, rule ballI)
  fix c assume c: "c \<in> set cs"
  from dtype_cleaning_lookup [OF assms] c obtain x where "map_of df c = Some x"
    and "map_of df' c = map_option clean (map_of df c)" by auto
  then show "\<exists>x. map_of df' c = Some x \<and> clean x = x" by simp
qed

lemma dtype_cleaning_no_bool:
  "dtype_cleaning cs df = Inr df' \<Longrightarrow> (\<forall>(k, v)\<in>set df. \<not> is_bool v) \<Longrightarrow> (\<forall>(k, v)\<in>set df'. \<not> is_bool v)"
proof (induction cs arbitrary: df)
  case Nil
  then show ?case by simp
next
  case (Cons c0 cs)
  from Cons.prems obtain x where x: "map_of df c0 = Some x"
    by (auto simp: getcol_def split: option.splits)
  let ?df1 = "if is_integer_dtype x then setcol df c0 (fillna0_Int64 x) else df"
  have run: "dtype_cleaning cs ?df1 = Inr df'"
    using Cons.prems x by (simp add: getcol_def)
  have "\<not> is_bool (fillna0_Int64 x)" if "is_integer_dtype x" using that by (cases x) simp_all
  then have "\<forall>(k, v)\<in>set ?df1. \<not> is_bool v"
    using Cons.prems(2) setcol_set [of df c0 "fillna0_Int64 x"] by (auto split: if_splits)
  from Cons.IH [OF run this] show ?case .
qed

lemma dummies_for_shape:
  "set cs \<subseteq> set (columns df) \<Longrightarrow>
   dummies_for p df cs = Inr (concat (map (\<lambda>c. get_dummies_1d p c (the (map_of df c))) cs))"
proof (induction cs)
  case Nil
  then show ?case by simp
next
  case (Cons c cs)
  from Cons.prems obtain x where x: "map_of df c = Some x"
    using map_of_in_columns by force
  then show ?case using Cons by (simp add: getcol_def)
qed

lemma multi_dummies_eq:
  assumes d: "distinct (columns df)"
  shows "concat (map (\<lambda>c. get_dummies_1d p c
            (the (map_of (convert_bool_cols (on_cols (binary_cols t df) (enc p) df)) c)))
          (multi_cat_cols t df))
       = concat (map (\<lambda>(c, s). get_dummies_1d p c s)
          (filter (\<lambda>(c, s). is_object s \<and> c \<noteq> t \<and> nunique s > 2) df))"
proof -
  have "map (\<lambda>c. get_dummies_1d p c
            (the (map_of (convert_bool_cols (on_cols (binary_cols t df) (enc p) df)) c)))
          (multi_cat_cols t df)
      = map (\<lambda>(c, s). get_dummies_1d p c s)
          (filter (\<lambda>(c, s). is_object s \<and> c \<noteq> t \<and> nunique s > 2) df)"
    unfolding multi_cat_cols_def map_map
  proof (rule map_cong [OF refl])
    fix x assume x: "x \<in> set (filter (\<lambda>(c, s). is_object s \<and> c \<noteq> t \<and> nunique s > 2) df)"
    obtain c s where cs: "x = (c, s)" by (cases x)
    with x have mem: "(c, s) \<in> set df" and obj: "is_object s" and m: "c \<in> set (multi_cat_cols t df)"
      by (auto simp: multi_cat_cols_mem)
    have nb: "c \<notin> set (binary_cols t df)" using binary_multi_disjoint [OF d, of t] m by blast
    have "map_of df c = Some s" using d mem by (simp add: columns_def)
    moreover have "bool_to_Int64 s = s" using obj by (cases s) simp_all
    ultimately show "((\<lambda>c. get_dummies_1d p c
            (the (map_of (convert_bool_cols (on_cols (binary_cols t df) (enc p) df)) c))) \<circ> fst) x
        = (case x of (c, s) \<Rightarrow> get_dummies_1d p c s)"
      using cs nb by (simp add: map_of_convert_bool_cols map_of_on_cols)
  qed
  then show ?thesis by simp
qed

lemma length_get_dummies_1d_obj:
  "length (get_dummies_1d p c (ObjS s)) = card (set (dropna s)) - 1"
proof -
  have "card (set (unique (dropna s))) = length (unique (dropna s))"
    by (rule distinct_card) (rule distinct_unique)
  then show ?thesis by simp
qed

lemma get_dummies_1d_obj_cols:
  assumes "(n, v) \<in> set (get_dummies_1d p c (ObjS s))"
  shows "\<exists>l\<in>set (dropna s). n = c @ ''_'' @ l \<and> v = BoolS (map (\<lambda>x. x = Some l) s)"
proof -
  from assms obtain l where l: "l \<in> set (tl (sort (unique (dropna s))))"
    and nv: "n = c @ ''_'' @ l" "v = BoolS (map (\<lambda>x. x = Some l) s)"
    by auto
  from l have "l \<in> set (sort (unique (dropna s)))"
    by (cases "sort (unique (dropna s))") auto
  then show ?thesis using nv by auto
qed

subsection \<open>The result of \<open>build_features\<close>\<close>

lemma build_features_heap:
  assumes a: "a < length h" and d: "distinct (columns (h ! a))"
  shows "build_features p h a t =
     (let df = h ! a;
          d4 = convert_bool_cols (on_cols (binary_cols t df) (enc p) df);
          res = on_cols (binary_cols t df) clean
                  (filter (\<lambda>(k, v). k \<notin> set (multi_cat_cols t df)) d4)
                @ concat (map (\<lambda>(c, s). get_dummies_1d p c s)
                    (filter (\<lambda>(c, s). is_object s \<and> c \<noteq> t \<and> nunique s > 2) df))
      in if multi_cat_cols t df = [] then Inr (h @ [res], length h)
         else Inr (h @ [d4, res], Suc (length h)))"
proof -
  let ?df = "h ! a"
  let ?B = "binary_cols t ?df" and ?M = "multi_cat_cols t ?df"
  let ?d4 = "convert_bool_cols (on_cols ?B (enc p) ?df)"
  let ?K = "filter (\<lambda>(k, v). k \<notin> set ?M) ?d4"
  let ?DS = "concat (map (\<lambda>c. get_dummies_1d p c (the (map_of ?d4 c))) ?M)"
  have e: "encode_binary_cols p ?B ?df = Inr (on_cols ?B (enc p) ?df)"
    using d binary_cols_subset binary_cols_distinct by (intro encode_binary_cols_shape) auto
  have colsK: "columns ?K = filter (\<lambda>k. k \<notin> set ?M) (columns ?df)"
    by (simp add: columns_filter_labels)
  have dK: "distinct (columns ?K)" using d by (simp add: colsK)
  have BK: "set ?B \<subseteq> set (columns ?K)"
    using binary_cols_subset [of t ?df] binary_multi_disjoint [OF d, of t] by (auto simp: colsK)
  have c: "dtype_cleaning ?B (?K @ ?DS) = Inr (on_cols ?B clean ?K @ ?DS)"
    using dK BK binary_cols_distinct [OF d] by (intro dtype_cleaning_shape)
  have g: "get_dummies p ?d4 ?M = Inr (?K @ ?DS)"
    using dummies_for_shape [of ?M ?d4 p] multi_cat_cols_subset [of t ?df]
    by (simp add: get_dummies_def)
  have DS: "?DS = concat (map (\<lambda>(c, s). get_dummies_1d p c s)
              (filter (\<lambda>(c, s). is_object s \<and> c \<noteq> t \<and> nunique s > 2) ?df))"
    using multi_dummies_eq [OF d] .
  show ?thesis
  proof (cases "?M = []")
    case True
    have K: "?K = ?d4" unfolding True by (simp add: case_prod_unfold)
    have D0: "?DS = []" unfolding True by simp
    have "dtype_cleaning ?B ?d4 = Inr (on_cols ?B clean ?K @ ?DS)"
      using c unfolding K D0 by simp
    then show ?thesis
      using True e DS
      by (simp add: build_features_def alloc_def Let_def)
  next
    case False
    then show ?thesis
      using e g c DS
      by (simp add: build_features_def alloc_def Let_def list_update_append nth_append)
  qed
qed

lemma build_features_df_shape:
  assumes d: "distinct (columns df)"
  shows "build_features_df p t df =
     Inr (on_cols (binary_cols t df) clean
            (filter (\<lambda>(k, v). k \<notin> set (multi_cat_cols t df))
               (convert_bool_cols (on_cols (binary_cols t df) (enc p) df)))
          @ concat (map (\<lambda>(c, s). get_dummies_1d p c s)
              (filter (\<lambda>(c, s). is_object s \<and> c \<noteq> t \<and> nunique s > 2) df)))"
proof -
  have "0 < length [df]" "distinct (columns ([df] ! 0))" using d by simp_all
  from build_features_heap [OF this, of p t] show ?thesis
    by (simp add: build_features_df_def Let_def)
qed

lemma build_features_frame:
  assumes "a < length h" "build_features p h a t = Inr (h', r)"
  shows "h' ! a = h ! a \<and> take (length h) h' = h \<and> length h \<le> r \<and> r < length h'"
  using assms
  by (auto simp: build_features_def alloc_def Let_def nth_append nth_list_update
           split: sum.splits if_splits prod.splits)

subsection \<open>Preprocessing: the steps on frames with distinct labels\<close>




















section \<open>The claims\<close>

subsection \<open>C1: generic two-valued columns\<close>

text \<open>
  C1. Let the distinct non-missing values of a series be the two strings \<open>a < b\<close> (in the
  order of Python's string comparison), the pair being neither Yes/No nor Male/Female.
  Then \<open>_map_binary_series\<close> maps the larger string \<open>b\<close> to 1 and the smaller \<open>a\<close> to 0
  (a missing entry stays missing), row by row. The code of a value depends on \<open>a\<close> and
  \<open>b\<close> only, so every row permutation \<open>s'\<close> of the series is encoded by the same
  assignment: a row keeps its code wherever it is moved.
\<close>

theorem C1_generic_binary_mapping:
  assumes "set (dropna s) = {a, b}" and "a < b"
    and "{a, b} \<noteq> {''Yes'', ''No''}" and "{a, b} \<noteq> {''Male'', ''Female''}"
    and "mset s' = mset s"
  shows "map_binary_series s =
           NI64S (map (\<lambda>x. if x = Some b then Some 1 else if x = Some a then Some 0 else None) s)
       \<and> map_binary_series s' =
           NI64S (map (\<lambda>x. if x = Some b then Some 1 else if x = Some a then Some 0 else None) s')"
proof -
  have "set s' = set s" using assms(5) by (rule mset_eq_setD)
  then have "set (dropna s') = {a, b}" using assms(1) by (simp add: set_dropna)
  then show ?thesis
    using assms(1-4) by (simp add: map_binary_series_generic)
qed

text \<open>Witness of C1: a column with the values \<open>Month\<close> and \<open>One year\<close> and a missing
  entry, and a permutation of its rows.\<close>

theorem C1_generic_binary_mapping_witness:
  "map_binary_series [Some ''One year'', None, Some ''Month'', Some ''One year'']
     = NI64S [Some 1, None, Some 0, Some 1]
   \<and> map_binary_series [Some ''Month'', Some ''One year'', Some ''One year'', None]
     = NI64S [Some 0, Some 1, Some 1, None]"
proof -
  have h1: "set (dropna [Some ''One year'', None, Some ''Month'', Some ''One year''])
              = {''Month'', ''One year''}" by code_simp
  have h2: "''Month'' < ''One year''" by code_simp
  have h3: "{''Month'', ''One year''} \<noteq> {''Yes'', ''No''}" by code_simp
  have h4: "{''Month'', ''One year''} \<noteq> {''Male'', ''Female''}" by code_simp
  have h5: "mset [Some ''Month'', Some ''One year'', Some ''One year'', None]
              = mset [Some ''One year'', None, Some ''Month'', Some ''One year'']" by simp
  show ?thesis using C1_generic_binary_mapping [OF h1 h2 h3 h4 h5] by simp
qed

subsection \<open>C2: Yes/No columns\<close>

text \<open>
  C2, as amended. The code folds neither case nor whitespace: the value set is compared
  with the exact strings \<open>Yes\<close> and \<open>No\<close>. For a column of a frame with distinct labels,
  other than the target, whose entries are exactly the strings \<open>Yes\<close> and \<open>No\<close> (none
  missing), the binary-encoding step of \<open>build_features\<close> succeeds, replaces the column
  by Yes \<open>\<mapsto>\<close> 1 and No \<open>\<mapsto>\<close> 0 row by row (so independently of row order and of how
  often each value occurs), and running the step again on its result changes nothing.
\<close>

theorem C2_yes_no_exact:
  assumes "distinct (columns df)" and "map_of df c = Some (ObjS s)" and "c \<noteq> t"
    and "set s = {Some ''Yes'', Some ''No''}"
  shows "\<exists>df'. binary_encoding_step p t df = Inr df'
           \<and> map_of df' c = Some (NI64S (map (\<lambda>x. if x = Some ''Yes'' then Some 1 else Some 0) s))
           \<and> binary_encoding_step p t df' = Inr df'"
proof -
  let ?B = "binary_cols t df"
  let ?df' = "on_cols ?B (enc p) df"
  have e: "binary_encoding_step p t df = Inr ?df'"
    unfolding binary_encoding_step_def
    using assms(1) binary_cols_subset binary_cols_distinct by (intro encode_binary_cols_shape) auto
  have vs: "set (dropna s) = {''Yes'', ''No''}" using assms(4) by (auto simp: set_dropna)
  have "length (unique (dropna s)) = 2" by (rule length_unique_two [OF vs]) simp
  moreover have "(c, ObjS s) \<in> set df" using assms(2) by (rule map_of_SomeD)
  ultimately have cB: "c \<in> set ?B" using assms(3) by (auto simp: binary_cols_mem)
  have "None \<notin> set s" using assms(4) by auto
  then have "(case x of None \<Rightarrow> Some ''nan'' | Some v \<Rightarrow> Some v) = x" if "x \<in> set s" for x
    using that by (cases x) auto
  then have "astype_str p (ObjS s) = s"
    by (simp add: map_idI)
  then have "enc p (ObjS s) = NI64S (map (\<lambda>x. if x = Some ''Yes'' then Some 1 else Some 0) s)"
    using map_binary_series_yes_no [OF assms(4)] by (simp add: enc_def)
  then have m: "map_of ?df' c = Some (NI64S (map (\<lambda>x. if x = Some ''Yes'' then Some 1 else Some 0) s))"
    using cB assms(2) by (simp add: map_of_on_cols)
  have "binary_encoding_step p t ?df' = Inr ?df'"
    by (simp add: binary_encoding_step_def binary_cols_after_encoding)
  then show ?thesis using e m by blast
qed

text \<open>Witness of C2 (amended) on a frame with a Yes/No column \<open>Partner\<close>.\<close>

theorem C2_yes_no_exact_witness:
  "\<exists>df'. binary_encoding_step (\<lambda>_. []) ''Churn''
            [(''Partner'', ObjS [Some ''No'', Some ''Yes'', Some ''No'']), (''Churn'', I64S [0, 1, 0])] = Inr df'
         \<and> map_of df' ''Partner'' = Some (NI64S [Some 0, Some 1, Some 0])
         \<and> binary_encoding_step (\<lambda>_. []) ''Churn'' df' = Inr df'"
proof -
  have h1: "distinct (columns [(''Partner'', ObjS [Some ''No'', Some ''Yes'', Some ''No'']),
              (''Churn'', I64S [0, 1, 0])])" by (simp add: columns_def)
  have h2: "map_of [(''Partner'', ObjS [Some ''No'', Some ''Yes'', Some ''No'']),
              (''Churn'', I64S [0, 1, 0])] ''Partner'' = Some (ObjS [Some ''No'', Some ''Yes'', Some ''No''])"
    by simp
  have h3: "''Partner'' \<noteq> ''Churn''" by simp
  have h4: "set [Some ''No'', Some ''Yes'', Some ''No''] = {Some ''Yes'', Some ''No''}" by auto
  show ?thesis using C2_yes_no_exact [OF h1 h2 h3 h4, of "\<lambda>_. []"] by simp
qed

text \<open>
  Counterexample to C2 as stated: the column \<open>Partner\<close> holds \<open>Yes\<close> and the
  capitalization variant \<open>no\<close>. It falls to the generic tier, where \<open>Yes < no\<close>
  (upper case sorts before lower case), so Yes is encoded as 0 and no as 1.
\<close>

theorem C2_yes_no_variant_counterexample:
  "binary_encoding_step (\<lambda>_. []) ''Churn'' [(''Partner'', ObjS [Some ''Yes'', Some ''no'', Some ''Yes''])]
     = Inr [(''Partner'', NI64S [Some 0, Some 1, Some 0])]"
  by code_simp

subsection \<open>C3: a binary column that the mapping declines\<close>

text \<open>
  C3. A column that is classified as binary (two distinct non-missing values) but has a
  missing entry has three distinct strings after \<open>.astype(str)\<close>. C3 says that such a
  column is left unmapped and routed to multi-category handling, or that the run fails.
  On the frame below \<open>build_features\<close> returns normally, and the column \<open>Partner\<close> is
  in the result as a column of strings, the missing entry now the string \<open>nan\<close>: it is
  left unmapped and has no null entry, but no indicator column is made for it and no
  error is raised.
\<close>

theorem C3_unmapped_binary_not_expanded:
  "build_features_df (\<lambda>_. []) ''Churn''
     [(''Partner'', ObjS [Some ''Yes'', Some ''No'', None]),
      (''Churn'', I64S [1, 0, 1])]
   = Inr [(''Partner'', ObjS [Some ''Yes'', Some ''No'', Some ''nan'']),
          (''Churn'', I64S [1, 0, 1])]"
  by code_simp

subsection \<open>C4: missing values under the binary mapping\<close>

text \<open>
  C4. The column \<open>Dependents\<close> below has two distinct non-missing values and a missing
  entry. \<open>_map_binary_series\<close>, given the column itself, encodes it and keeps the
  missing entry missing (\<open><NA>\<close>, not 0), as C4 says; so it does on every series it
  encodes (lemma \<open>map_binary_series_missing\<close>). But \<open>build_features\<close> hands it the
  column after \<open>.astype(str)\<close>, where the missing entry is the string \<open>nan\<close>: the
  column comes back as strings, and the missing value of the input is not a missing
  value of the output.
\<close>

theorem C4_missing_not_preserved:
  "map_binary_series [Some ''No'', None, Some ''Yes''] = NI64S [Some 0, None, Some 1]
   \<and> build_features_df (\<lambda>_. []) ''Churn'' [(''Dependents'', ObjS [Some ''No'', None, Some ''Yes''])]
       = Inr [(''Dependents'', ObjS [Some ''No'', Some ''nan'', Some ''Yes''])]"
  by code_simp

subsection \<open>C5: one-hot expansion\<close>

text \<open>
  C5. Let \<open>c\<close> be an object column, not the target, of a frame with distinct labels,
  with \<open>k > 2\<close> distinct non-missing values. The result of \<open>build_features\<close> is a list
  \<open>kept\<close> of columns followed by one block of indicator columns for each multi-category
  column. \<open>kept\<close> carries the labels of the frame without the multi-category ones, so
  the column \<open>c\<close> is removed. The block of \<open>c\<close> has exactly \<open>k - 1\<close> columns; each is
  labelled \<open>c\<close>, an underscore and one of the categories of \<open>c\<close>, and is the boolean
  column that is true (1) on the rows holding that category and false (0) elsewhere.
\<close>

theorem C5_indicator_expansion:
  assumes "distinct (columns df)" and "map_of df c = Some (ObjS s)" and "c \<noteq> t"
    and "2 < card (set (dropna s))"
  shows "\<exists>kept. build_features_df p t df =
            Inr (kept @ concat (map (\<lambda>(c', s'). get_dummies_1d p c' s')
                   (filter (\<lambda>(c', s'). is_object s' \<and> c' \<noteq> t \<and> 2 < nunique s') df)))
          \<and> columns kept = filter (\<lambda>k. k \<notin> set (multi_cat_cols t df)) (columns df)
          \<and> c \<notin> set (columns kept)
          \<and> (c, ObjS s) \<in> set (filter (\<lambda>(c', s'). is_object s' \<and> c' \<noteq> t \<and> 2 < nunique s') df)
          \<and> length (get_dummies_1d p c (ObjS s)) = card (set (dropna s)) - 1
          \<and> (\<forall>(n, v) \<in> set (get_dummies_1d p c (ObjS s)).
                \<exists>l\<in>set (dropna s). n = c @ ''_'' @ l \<and> v = BoolS (map (\<lambda>x. x = Some l) s))"
proof -
  let ?B = "binary_cols t df" and ?M = "multi_cat_cols t df"
  let ?kept = "on_cols ?B clean (filter (\<lambda>(k, v). k \<notin> set ?M)
                 (convert_bool_cols (on_cols ?B (enc p) df)))"
  have mem: "(c, ObjS s) \<in> set df" using assms(2) by (rule map_of_SomeD)
  have "card (set (unique (dropna s))) = length (unique (dropna s))"
    by (rule distinct_card) (rule distinct_unique)
  then have nu: "2 < nunique (ObjS s)" using assms(4) by simp
  then have cM: "c \<in> set ?M" using mem assms(3) by (auto simp: multi_cat_cols_mem)
  have cols: "columns ?kept = filter (\<lambda>k. k \<notin> set ?M) (columns df)"
    by (simp add: columns_filter_labels)
  have "c \<notin> set (columns ?kept)" using cM unfolding cols by simp
  moreover have "(c, ObjS s) \<in> set (filter (\<lambda>(c', s'). is_object s' \<and> c' \<noteq> t \<and> 2 < nunique s') df)"
    using mem nu assms(3) by simp
  moreover have "\<forall>(n, v) \<in> set (get_dummies_1d p c (ObjS s)).
                \<exists>l\<in>set (dropna s). n = c @ ''_'' @ l \<and> v = BoolS (map (\<lambda>x. x = Some l) s)"
    using get_dummies_1d_obj_cols by blast
  ultimately show ?thesis
    using build_features_df_shape [OF assms(1), of p t] cols length_get_dummies_1d_obj [of p c s]
    by blast
qed

text \<open>Witness of C5: \<open>Contract\<close> with three categories gives two indicator columns.\<close>

theorem C5_indicator_expansion_witness:
  "\<exists>kept. build_features_df (\<lambda>_. []) ''Churn''
       [(''tenure'', I64S [1, 5, 9]),
        (''Contract'', ObjS [Some ''Month-to-month'', Some ''One year'', Some ''Two year'']),
        (''Churn'', I64S [1, 0, 0])]
     = Inr (kept @ [(''Contract_One year'', BoolS [False, True, False]),
                    (''Contract_Two year'', BoolS [False, False, True])])
     \<and> columns kept = [''tenure'', ''Churn'']"
proof -
  let ?s = "[Some ''Month-to-month'', Some ''One year'', Some ''Two year'']"
  let ?df = "[(''tenure'', I64S [1, 5, 9]), (''Contract'', ObjS ?s), (''Churn'', I64S [1, 0, 0])]"
  have h1: "distinct (columns ?df)" by (simp add: columns_def)
  have h2: "map_of ?df ''Contract'' = Some (ObjS ?s)" by simp
  have h3: "''Contract'' \<noteq> ''Churn''" by simp
  have h4: "2 < card (set (dropna ?s))" by code_simp
  have e1: "concat (map (\<lambda>(c', s'). get_dummies_1d (\<lambda>_. []) c' s')
                   (filter (\<lambda>(c', s'). is_object s' \<and> c' \<noteq> ''Churn'' \<and> 2 < nunique s') ?df))
            = [(''Contract_One year'', BoolS [False, True, False]),
               (''Contract_Two year'', BoolS [False, False, True])]" by code_simp
  have e2: "filter (\<lambda>k. k \<notin> set (multi_cat_cols ''Churn'' ?df)) (columns ?df) = [''tenure'', ''Churn'']"
    by code_simp
  from C5_indicator_expansion [OF h1 h2 h3 h4, of "\<lambda>_. []"]
  show ?thesis unfolding e1 e2 by blast
qed

subsection \<open>C6: the target column\<close>

text \<open>
  C6, as amended. On a frame with distinct labels that has the target column, the target
  is in neither the binary nor the multi-category list, \<open>build_features\<close> succeeds, and
  the target column of the result is the input's, unchanged, unless it is of boolean
  dtype: then step 4 casts it, like every boolean column, to nullable integers
  (True \<open>\<mapsto>\<close> 1, False \<open>\<mapsto>\<close> 0).
\<close>

theorem C6_target_not_encoded:
  assumes "distinct (columns df)" and "map_of df t = Some x"
  shows "t \<notin> set (binary_cols t df) \<and> t \<notin> set (multi_cat_cols t df)
       \<and> (\<exists>df'. build_features_df p t df = Inr df'
             \<and> map_of df' t = Some (if is_bool x then bool_to_Int64 x else x))"
proof -
  let ?B = "binary_cols t df" and ?M = "multi_cat_cols t df"
  let ?kept = "on_cols ?B clean (filter (\<lambda>(k, v). k \<notin> set ?M)
                 (convert_bool_cols (on_cols ?B (enc p) df)))"
  have nB: "t \<notin> set ?B" by (simp add: binary_cols_mem)
  have nM: "t \<notin> set ?M" by (simp add: multi_cat_cols_mem)
  have "t \<in> set (columns df)" using assms(2) by (auto simp: columns_def dest: map_of_SomeD intro: rev_image_eqI)
  then have "t \<in> set (columns ?kept)" using nM by (simp add: columns_filter_labels)
  then have "map_of (?kept @ D) t = map_of ?kept t" for D
    by (rule map_of_append_left)
  moreover have "map_of ?kept t = Some (bool_to_Int64 x)"
    using nB nM assms(2)
    by (simp add: map_of_on_cols map_of_filter_labels map_of_convert_bool_cols)
  moreover have "bool_to_Int64 x = (if is_bool x then bool_to_Int64 x else x)"
    by (cases x) simp_all
  ultimately show ?thesis
    using build_features_df_shape [OF assms(1), of p t] nB nM by simp
qed

text \<open>Witness of C6 (amended): a Yes/No target next to a Yes/No feature.\<close>

theorem C6_target_not_encoded_witness:
  "''Churn'' \<notin> set (binary_cols ''Churn'' [(''Partner'', ObjS [Some ''Yes'', Some ''No'']), (''Churn'', ObjS [Some ''No'', Some ''Yes''])])
   \<and> (\<exists>df'. build_features_df (\<lambda>_. []) ''Churn''
               [(''Partner'', ObjS [Some ''Yes'', Some ''No'']), (''Churn'', ObjS [Some ''No'', Some ''Yes''])] = Inr df'
        \<and> map_of df' ''Churn'' = Some (ObjS [Some ''No'', Some ''Yes'']))"
proof -
  let ?df = "[(''Partner'', ObjS [Some ''Yes'', Some ''No'']), (''Churn'', ObjS [Some ''No'', Some ''Yes''])]"
  have h1: "distinct (columns ?df)" by (simp add: columns_def)
  have h2: "map_of ?df ''Churn'' = Some (ObjS [Some ''No'', Some ''Yes''])" by simp
  show ?thesis using C6_target_not_encoded [OF h1 h2, of "\<lambda>_. []"] by simp
qed

text \<open>Counterexample to C6 as stated: a boolean target does not appear unchanged.\<close>

theorem C6_bool_target_cast_counterexample:
  "build_features_df (\<lambda>_. []) ''Churn'' [(''tenure'', I64S [1, 5]), (''Churn'', BoolS [True, False])]
     = Inr [(''tenure'', I64S [1, 5]), (''Churn'', NI64S [Some 1, Some 0])]"
  by code_simp

subsection \<open>C7: dtype normalization is idempotent\<close>

text \<open>
  C7. The conversion of boolean columns to \<open>Int64\<close> (step 4) is idempotent; the dtype
  cleaning of the binary columns (step 6), when it succeeds, returns a frame that it
  maps to itself; and so does the two together.
\<close>

theorem C7_dtype_normalization_idempotent:
  "convert_bool_cols (convert_bool_cols df) = convert_bool_cols df
   \<and> (dtype_cleaning cs df = Inr df1 \<longrightarrow> dtype_cleaning cs df1 = Inr df1)
   \<and> (dtype_normalize cs df = Inr df2 \<longrightarrow> dtype_normalize cs df2 = Inr df2)"
proof (intro conjI impI)
  show "convert_bool_cols (convert_bool_cols df) = convert_bool_cols df"
    by (rule convert_bool_cols_idem)
next
  assume "dtype_cleaning cs df = Inr df1"
  then show "dtype_cleaning cs df1 = Inr df1" by (rule dtype_cleaning_idem)
next
  assume n: "dtype_normalize cs df = Inr df2"
  then have r: "dtype_cleaning cs (convert_bool_cols df) = Inr df2"
    by (simp add: dtype_normalize_def)
  from dtype_cleaning_no_bool [OF r convert_bool_cols_no_bool]
  have "convert_bool_cols df2 = df2" by (rule convert_bool_cols_fixed)
  then show "dtype_normalize cs df2 = Inr df2"
    using dtype_cleaning_idem [OF r] by (simp add: dtype_normalize_def)
qed

text \<open>Witness of C7.\<close>

theorem C7_dtype_normalization_idempotent_witness:
  "dtype_cleaning [''Partner''] [(''Partner'', NI64S [Some 1, None])] = Inr [(''Partner'', NI64S [Some 1, Some 0])]
   \<and> dtype_cleaning [''Partner''] [(''Partner'', NI64S [Some 1, Some 0])] = Inr [(''Partner'', NI64S [Some 1, Some 0])]
   \<and> dtype_normalize [''Partner''] [(''Partner'', I64S [1, 0]), (''Flag'', BoolS [True, False])]
       = Inr [(''Partner'', NI64S [Some 1, Some 0]), (''Flag'', NI64S [Some 1, Some 0])]
   \<and> dtype_normalize [''Partner''] [(''Partner'', NI64S [Some 1, Some 0]), (''Flag'', NI64S [Some 1, Some 0])]
       = Inr [(''Partner'', NI64S [Some 1, Some 0]), (''Flag'', NI64S [Some 1, Some 0])]"
proof -
  have h1: "dtype_cleaning [''Partner''] [(''Partner'', NI64S [Some 1, None])]
              = Inr [(''Partner'', NI64S [Some 1, Some 0])]" by code_simp
  have h2: "dtype_normalize [''Partner''] [(''Partner'', I64S [1, 0]), (''Flag'', BoolS [True, False])]
              = Inr [(''Partner'', NI64S [Some 1, Some 0]), (''Flag'', NI64S [Some 1, Some 0])]" by code_simp
  show ?thesis
    using C7_dtype_normalization_idempotent [of "[(''Partner'', NI64S [Some 1, None])]" "[''Partner'']"
        "[(''Partner'', NI64S [Some 1, Some 0])]"
        "[(''Partner'', NI64S [Some 1, Some 0]), (''Flag'', NI64S [Some 1, Some 0])]"]
      C7_dtype_normalization_idempotent [of "[(''Partner'', I64S [1, 0]), (''Flag'', BoolS [True, False])]" "[''Partner'']"
        "[(''Partner'', NI64S [Some 1, Some 0])]"
        "[(''Partner'', NI64S [Some 1, Some 0]), (''Flag'', NI64S [Some 1, Some 0])]"]
      h1 h2 by simp
qed

subsection \<open>C8: blanks in TotalCharges\<close>




subsection \<open>C9: the persisted feature metadata\<close>

text \<open>
  C9. When the target is a column of the encoded frame, saving the feature metadata
  succeeds and changes the two sinks in exactly four entries, which carry two things.
  The feature list \<open>fs\<close>, the labels of the encoded frame other than the target in
  their order, is written as a JSON list to \<open>feature_columns.json\<close> and as text, one
  name per line, to the run's \<open>feature_columns.txt\<close>. The record of \<open>fs\<close> and the
  target name is written to \<open>preprocessing.pkl\<close> and uploaded to the run.
\<close>

theorem C9_feature_metadata_persisted:
  assumes "t \<in> set (columns df_enc)"
  shows "\<exists>st' fs. save_feature_metadata st dir df_enc t = Inr st'
           \<and> fs = filter (\<lambda>c. c \<noteq> t) (columns df_enc)
           \<and> local_files st' = (local_files st)
                ((dir, ''feature_columns.json'') \<mapsto> JsonList fs,
                 (dir, ''preprocessing.pkl'') \<mapsto> Joblib \<lparr>feature_column = fs, target = t\<rparr>)
           \<and> mlflow_artifacts st' = (mlflow_artifacts st)
                (''feature_columns.txt'' \<mapsto> Text (join_lines fs),
                 ''preprocessing.pkl'' \<mapsto> Joblib \<lparr>feature_column = fs, target = t\<rparr>)"
  using assms by (simp add: save_feature_metadata_def log_artifact_def Let_def)

text \<open>Witness of C9.\<close>

theorem C9_feature_metadata_persisted_witness:
  "\<exists>st'. save_feature_metadata \<lparr>local_files = Map.empty, mlflow_artifacts = Map.empty\<rparr> ''artifacts''
            [(''tenure'', I64S [1]), (''Churn'', I64S [0]), (''Partner'', NI64S [Some 1])] ''Churn'' = Inr st'
     \<and> local_files st' (''artifacts'', ''feature_columns.json'') = Some (JsonList [''tenure'', ''Partner''])
     \<and> local_files st' (''artifacts'', ''preprocessing.pkl'')
         = Some (Joblib \<lparr>feature_column = [''tenure'', ''Partner''], target = ''Churn''\<rparr>)
     \<and> mlflow_artifacts st' ''feature_columns.txt'' = Some (Text (''tenure'' @ [CHR 0x0A] @ ''Partner''))
     \<and> mlflow_artifacts st' ''preprocessing.pkl''
         = Some (Joblib \<lparr>feature_column = [''tenure'', ''Partner''], target = ''Churn''\<rparr>)"
proof -
  let ?df = "[(''tenure'', I64S [1]), (''Churn'', I64S [0]), (''Partner'', NI64S [Some 1])]"
  have h: "''Churn'' \<in> set (columns ?df)" by (simp add: columns_def)
  from C9_feature_metadata_persisted [OF h, of "\<lparr>local_files = Map.empty, mlflow_artifacts = Map.empty\<rparr>" "''artifacts''"]
  show ?thesis by (auto simp: columns_def)
qed

subsection \<open>C10: the caller's frame\<close>

text \<open>
  C10. \<open>build_features\<close>, called with the address of an allocated frame, leaves every
  frame that existed before the call as it was, the caller's among them, and returns
  the address of a frame allocated during the call. On a frame with distinct labels the
  call returns.
\<close>

theorem C10_input_frame_unchanged:
  assumes "a < length h"
  shows "(\<forall>h' r. build_features p h a t = Inr (h', r) \<longrightarrow>
            h' ! a = h ! a \<and> take (length h) h' = h \<and> length h \<le> r \<and> r < length h')
       \<and> (distinct (columns (h ! a)) \<longrightarrow> (\<exists>h' r. build_features p h a t = Inr (h', r)))"
proof (intro conjI allI impI)
  fix h' r assume "build_features p h a t = Inr (h', r)"
  from build_features_frame [OF assms this]
  show "h' ! a = h ! a" "take (length h) h' = h" "length h \<le> r" "r < length h'" by simp_all
next
  assume "distinct (columns (h ! a))"
  from build_features_heap [OF assms this, of p t]
  show "\<exists>h' r. build_features p h a t = Inr (h', r)"
    by (simp add: Let_def split: if_splits)
qed

text \<open>Witness of C10.\<close>

theorem C10_input_frame_unchanged_witness:
  "\<exists>h' r. build_features (\<lambda>_. []) [[(''Partner'', ObjS [Some ''Yes'', Some ''No'']), (''Churn'', I64S [1, 0])]]
              0 ''Churn'' = Inr (h', r)
     \<and> h' ! 0 = [(''Partner'', ObjS [Some ''Yes'', Some ''No'']), (''Churn'', I64S [1, 0])]
     \<and> h' ! r = [(''Partner'', NI64S [Some 1, Some 0]), (''Churn'', I64S [1, 0])]
     \<and> 1 \<le> r \<and> r < length h'"
proof -
  let ?df = "[(''Partner'', ObjS [Some ''Yes'', Some ''No'']), (''Churn'', I64S [1, 0])]"
  have h: "0 < length [?df]" by simp
  have d: "distinct (columns ([?df] ! 0))" by (simp add: columns_def)
  have e: "build_features_df (\<lambda>_. []) ''Churn'' ?df
             = Inr [(''Partner'', NI64S [Some 1, Some 0]), (''Churn'', I64S [1, 0])]"
    by code_simp
  from C10_input_frame_unchanged [OF h, of "\<lambda>_. []" "''Churn''"] d
  obtain h' r where r: "build_features (\<lambda>_. []) [?df] 0 ''Churn'' = Inr (h', r)"
    and f: "h' ! 0 = [?df] ! 0" "length [?df] \<le> r" "r < length h'"
    by blast
  from e r have "h' ! r = [(''Partner'', NI64S [Some 1, Some 0]), (''Churn'', I64S [1, 0])]"
    by (simp add: build_features_df_def)
  then show ?thesis using r f by simp
qed

end
